theory Spec2Isabelle
  imports Complex_Main
begin

section \<open>Python values, exceptions and outcomes\<close>

text \<open>
  The module \<^verbatim>\<open>nengo_dl/builder.py\<close> is embedded function by function. Every method
  is a function from the state it can touch to an outcome and the state it leaves behind:
  the outcome is \<open>Inl e\<close> when the method raises the exception \<open>e\<close> and \<open>Inr v\<close> when it
  returns \<open>v\<close>. A raise keeps the mutations made before it, so the state is returned in
  both cases.
\<close>

datatype error =
    BuildError string
  | KeyError
  | IndexError
  | AttributeError string
  | TypeError string
  | OtherError string

text \<open>The test of \<^verbatim>\<open>except BuildError\<close>.\<close>

fun is_BuildError :: "error \<Rightarrow> bool" where
  "is_BuildError (BuildError msg) = True"
| "is_BuildError e = False"

text \<open>
  A class object is named by its qualified name; \<^verbatim>\<open>%r\<close> and \<^verbatim>\<open>%s\<close> of a class both
  print \<^verbatim>\<open><class 'name'>\<close>.
\<close>

type_synonym pytype = string

definition repr_type :: "pytype \<Rightarrow> string" where
  "repr_type t = ''<class '' @ [CHR 0x27] @ t @ [CHR 0x27] @ ''>''"

text \<open>
  What a \<^verbatim>\<open>build_step\<close> can hand back: \<^verbatim>\<open>None\<close>, a \<^verbatim>\<open>tf.Tensor\<close>, a
  \<^verbatim>\<open>tf.Variable\<close>, a list, a tuple, or any other object (a \<^verbatim>\<open>tf.Operation\<close>, a
  number, a generator).
\<close>

datatype pyval =
    PNone
  | PTensor nat
  | PVariable nat
  | PList "pyval list"
  | PTuple "pyval list"
  | PObject string

text \<open>\<^verbatim>\<open>isinstance(output, (tf.Tensor, tf.Variable))\<close>\<close>

fun is_tensor_or_variable :: "pyval \<Rightarrow> bool" where
  "is_tensor_or_variable (PTensor h) = True"
| "is_tensor_or_variable (PVariable h) = True"
| "is_tensor_or_variable v = False"

text \<open>\<^verbatim>\<open>isinstance(output, (list, tuple))\<close>\<close>

fun is_list_or_tuple :: "pyval \<Rightarrow> bool" where
  "is_list_or_tuple (PList xs) = True"
| "is_list_or_tuple (PTuple xs) = True"
| "is_list_or_tuple v = False"

text \<open>\<^verbatim>\<open>list(output)\<close>, used on lists and tuples only.\<close>

fun list_of :: "pyval \<Rightarrow> pyval list" where
  "list_of (PList xs) = xs"
| "list_of (PTuple xs) = xs"
| "list_of v = []"

section \<open>Operators, groups and configuration\<close>

text \<open>
  The signal dictionary of the plain Nengo simulator (\<^verbatim>\<open>nengo.builder.signal.SignalDict\<close>)
  and the one of the TensorFlow build (\<^verbatim>\<open>nengo_dl.signals.SignalDict\<close>), both keyed by
  signal and both opaque to this module.
\<close>

type_synonym np_signals = "nat \<rightharpoonup> real"
type_synonym tf_signals = "nat \<rightharpoonup> pyval"

text \<open>
  An operator is an object of some class, with the two methods \<^verbatim>\<open>add_op\<close> calls.
  \<open>op_id\<close> is the identity of the object: operators compare and hash by identity.
  \<^verbatim>\<open>make_step(signals, dt, rng)\<close> returns a step function that \<^verbatim>\<open>add_op\<close> drops, so
  only whether it raises is kept.
\<close>

record operator =
  op_id :: nat
  op_type :: pytype
  op_init_signals :: "np_signals \<Rightarrow> (error + unit) \<times> np_signals"
  op_make_step :: "np_signals \<Rightarrow> real \<Rightarrow> error + unit"

text \<open>A group is a tuple of operators; it is the key of \<^verbatim>\<open>op_builds\<close>.\<close>

type_synonym group = "operator list"

record build_config =
  inference_only :: bool
  lif_smoothing :: real
  cpu_only :: bool

section \<open>OpBuilder\<close>

text \<open>
  The attributes of a builder instance (its \<^verbatim>\<open>__dict__\<close>). A build class is given by
  its \<^verbatim>\<open>__name__\<close>, by whether it is a subclass of \<^verbatim>\<open>OpBuilder\<close>, and by the methods
  it defines itself (\<open>None\<close>: the method is inherited). A constructor may write into the
  signal dictionary; a step may write into it and into the instance.
\<close>

datatype attr = AConfig build_config | AValue pyval

type_synonym inst_dict = "string \<rightharpoonup> attr"

record build_class =
  bc_name :: string
  bc_is_opbuilder :: bool
  bc_init ::
    "(group \<Rightarrow> tf_signals \<Rightarrow> build_config \<Rightarrow> (error + inst_dict) \<times> tf_signals) option"
  bc_build_step ::
    "(inst_dict \<Rightarrow> tf_signals \<Rightarrow> (error + pyval) \<times> inst_dict \<times> tf_signals) option"

record opbuilder =
  inst_class :: build_class
  inst_attrs :: inst_dict

text \<open>
  \<^verbatim>\<open>OpBuilder.__init__\<close>: two debug log lines, then \<^verbatim>\<open>self.config = config\<close> on the
  new, empty instance.
\<close>

definition OpBuilder_init ::
  "group \<Rightarrow> tf_signals \<Rightarrow> build_config \<Rightarrow> (error + inst_dict) \<times> tf_signals" where
  "OpBuilder_init ops signals config =
     (Inr (Map.empty(''config'' \<mapsto> AConfig config)), signals)"

text \<open>\<^verbatim>\<open>OpBuilder.build_step\<close>\<close>

definition OpBuilder_build_step ::
  "inst_dict \<Rightarrow> tf_signals \<Rightarrow> (error + pyval) \<times> inst_dict \<times> tf_signals" where
  "OpBuilder_build_step self signals =
     (Inl (BuildError ''OpBuilders must implement a `build_step` function''), self, signals)"

text \<open>\<^verbatim>\<open>OpBuilder.mergeable\<close>, a static method.\<close>

definition OpBuilder_mergeable :: "operator \<Rightarrow> operator \<Rightarrow> bool" where
  "OpBuilder_mergeable x y = False"

text \<open>The class \<^verbatim>\<open>OpBuilder\<close> itself: it inherits nothing but defines all three.\<close>

definition OpBuilder_class :: build_class where
  "OpBuilder_class =
     \<lparr>bc_name = ''OpBuilder'', bc_is_opbuilder = True,
      bc_init = Some OpBuilder_init, bc_build_step = Some OpBuilder_build_step\<rparr>"

text \<open>
  Method resolution. A class that is not a subclass of \<^verbatim>\<open>OpBuilder\<close> and defines no
  constructor gets \<^verbatim>\<open>object\<close>'s, which rejects the three arguments; one that defines
  no \<^verbatim>\<open>build_step\<close> has none.
\<close>

definition resolve_init ::
  "build_class \<Rightarrow> group \<Rightarrow> tf_signals \<Rightarrow> build_config \<Rightarrow> (error + inst_dict) \<times> tf_signals" where
  "resolve_init cls =
     (case bc_init cls of
        Some f \<Rightarrow> f
      | None \<Rightarrow>
          if bc_is_opbuilder cls then OpBuilder_init
          else (\<lambda>ops signals config.
                  (Inl (TypeError (bc_name cls @ ''() takes no arguments'')), signals)))"

definition resolve_build_step ::
  "build_class \<Rightarrow> inst_dict \<Rightarrow> tf_signals \<Rightarrow> (error + pyval) \<times> inst_dict \<times> tf_signals" where
  "resolve_build_step cls =
     (case bc_build_step cls of
        Some f \<Rightarrow> f
      | None \<Rightarrow>
          if bc_is_opbuilder cls then OpBuilder_build_step
          else (\<lambda>self signals.
                  (Inl (AttributeError (CHR 0x27 # bc_name cls @
                     [CHR 0x27] @ '' object has no attribute '' @
                     [CHR 0x27] @ ''build_step'' @ [CHR 0x27])), self, signals)))"

text \<open>\<^verbatim>\<open>BuildClass(ops, signals, config)\<close>: a new instance, then its constructor.\<close>

definition instantiate ::
  "build_class \<Rightarrow> group \<Rightarrow> tf_signals \<Rightarrow> build_config \<Rightarrow> (error + opbuilder) \<times> tf_signals" where
  "instantiate cls ops signals config =
     (case resolve_init cls ops signals config of
        (Inl e, signals') \<Rightarrow> (Inl e, signals')
      | (Inr d, signals') \<Rightarrow> (Inr \<lparr>inst_class = cls, inst_attrs = d\<rparr>, signals'))"

text \<open>\<^verbatim>\<open>inst.build_step(signals)\<close>: the step of the instance's class, on the instance.\<close>

definition call_build_step ::
  "opbuilder \<Rightarrow> tf_signals \<Rightarrow> (error + pyval) \<times> opbuilder \<times> tf_signals" where
  "call_build_step inst signals =
     (case resolve_build_step (inst_class inst) (inst_attrs inst) signals of
        (r, d, signals') \<Rightarrow> (r, inst\<lparr>inst_attrs := d\<rparr>, signals'))"

section \<open>The registry\<close>

text \<open>
  \<^verbatim>\<open>Builder.builders\<close> is a dictionary on the class, shared by every \<^verbatim>\<open>Builder\<close>;
  \<open>warnings\<close> is what \<^verbatim>\<open>warnings.warn\<close> has been given so far, oldest first.
\<close>

record registry =
  builders :: "pytype \<rightharpoonup> build_class"
  warnings :: "string list"

definition warn :: "string \<Rightarrow> registry \<Rightarrow> registry" where
  "warn msg g = g\<lparr>warnings := warnings g @ [msg]\<rparr>"

text \<open>The class body's \<^verbatim>\<open>builders = {}\<close>, before any module has registered a class.\<close>

definition initial_registry :: registry where
  "initial_registry = \<lparr>builders = Map.empty, warnings = []\<rparr>"

text \<open>
  \<^verbatim>\<open>register_builder\<close> is the decorator that \<^verbatim>\<open>Builder.register(nengo_op)\<close> returns;
  it returns the class it was given.
\<close>

definition register_builder ::
  "pytype \<Rightarrow> build_class \<Rightarrow> registry \<Rightarrow> (error + build_class) \<times> registry" where
  "register_builder nengo_op build_class g =
     (let g1 = (if \<not> bc_is_opbuilder build_class
                then warn ''Build classes should inherit from OpBuilder'' g else g);
          g2 = (if builders g1 nengo_op \<noteq> None
                then warn (''Operator '' @ [CHR 0x27] @ repr_type nengo_op @ [CHR 0x27] @
                           '' already has a builder. Overwriting.'') g1
                else g1)
      in (Inr build_class, g2\<lparr>builders := (builders g2)(nengo_op \<mapsto> build_class)\<rparr>))"

definition register ::
  "pytype \<Rightarrow> build_class \<Rightarrow> registry \<Rightarrow> (error + build_class) \<times> registry" where
  "register nengo_op = register_builder nengo_op"

text \<open>A module that decorates several classes in a row, as happens at import time.\<close>

fun register_all :: "(pytype \<times> build_class) list \<Rightarrow> registry \<Rightarrow> registry" where
  "register_all [] g = g"
| "register_all ((t, c) # rest) g = register_all rest (snd (register t c g))"

section \<open>Builder\<close>

text \<open>
  The graph is used through \<^verbatim>\<open>graph.name_scope\<close> only; it is kept as the list of the
  scopes entered. \<open>call_log\<close> is not an attribute of the Python object: it lists, in
  order, the constructors and steps that were called on behalf of this builder and what
  each step gave back, so that statements about which calls are made can be written down.
\<close>

datatype call = Construct group build_class | BuildStep group "error + pyval"

record builder =
  plan :: "group list"
  graph :: "string list"
  signals :: tf_signals
  config :: build_config
  op_builds :: "group \<rightharpoonup> opbuilder"
  call_log :: "call list"

text \<open>\<^verbatim>\<open>Builder.__init__\<close>\<close>

definition Builder_init ::
  "group list \<Rightarrow> string list \<Rightarrow> tf_signals \<Rightarrow> build_config \<Rightarrow> builder" where
  "Builder_init p g sg cfg =
     \<lparr>plan = p, graph = g, signals = sg, config = cfg, op_builds = Map.empty, call_log = []\<rparr>"

text \<open>\<^verbatim>\<open>type(ops[0])\<close>: an empty tuple has no first element.\<close>

definition type_of_first :: "group \<Rightarrow> error + pytype" where
  "type_of_first ops = (case ops of [] \<Rightarrow> Inl IndexError | x # rest \<Rightarrow> Inr (op_type x))"

text \<open>
  \<^verbatim>\<open>Builder.name_scope\<close> gives the scope named after the builder class registered for
  the group's first operator. \<^verbatim>\<open>utils.sanitize_name\<close> is not part of this module and
  is a parameter. \<^verbatim>\<open>with self.name_scope(ops):\<close> enters the scope.
\<close>

definition name_scope ::
  "(string \<Rightarrow> string) \<Rightarrow> (pytype \<rightharpoonup> build_class) \<Rightarrow> group \<Rightarrow> error + string" where
  "name_scope sanitize_name reg ops =
     (case type_of_first ops of
        Inl e \<Rightarrow> Inl e
      | Inr t \<Rightarrow>
          (case reg t of
             None \<Rightarrow> Inl KeyError
           | Some cls \<Rightarrow> Inr (sanitize_name (bc_name cls))))"

definition enter_scope :: "string \<Rightarrow> builder \<Rightarrow> builder" where
  "enter_scope nm b = b\<lparr>graph := graph b @ [nm]\<rparr>"

text \<open>
  The body of the loop of \<^verbatim>\<open>Builder.pre_build\<close> for one group, up to the progress
  bar. The debug log lines are left out.
\<close>

definition pre_build_ops ::
  "(string \<Rightarrow> string) \<Rightarrow> (pytype \<rightharpoonup> build_class) \<Rightarrow> group \<Rightarrow> builder
     \<Rightarrow> (error + unit) \<times> builder" where
  "pre_build_ops sanitize_name reg ops b =
     (case type_of_first ops of
        Inl e \<Rightarrow> (Inl e, b)
      | Inr t \<Rightarrow>
          (case reg t of
             None \<Rightarrow>
               (Inl (BuildError (''No registered builder for operators of type '' @
                                 repr_type t)), b)
           | Some BuildClass \<Rightarrow>
               (case name_scope sanitize_name reg ops of
                  Inl e \<Rightarrow> (Inl e, b)
                | Inr nm \<Rightarrow>
                    (case instantiate BuildClass ops (signals b) (config b) of
                       (Inl e, sg) \<Rightarrow>
                         (Inl e, (enter_scope nm b)
                            \<lparr>signals := sg,
                             call_log := call_log b @ [Construct ops BuildClass]\<rparr>)
                     | (Inr inst, sg) \<Rightarrow>
                         (Inr (), (enter_scope nm b)
                            \<lparr>signals := sg,
                             op_builds := (op_builds b)(ops \<mapsto> inst),
                             call_log := call_log b @ [Construct ops BuildClass]\<rparr>)))))"

text \<open>
  The loop over the plan. The progress bar is a counter, or \<open>None\<close> when the caller
  passes none; it is stepped after a group is done.
\<close>

fun pre_build_loop ::
  "(string \<Rightarrow> string) \<Rightarrow> (pytype \<rightharpoonup> build_class) \<Rightarrow> group list \<Rightarrow> builder \<Rightarrow> nat option
     \<Rightarrow> (error + unit) \<times> builder \<times> nat option" where
  "pre_build_loop sanitize_name reg [] b progress = (Inr (), b, progress)"
| "pre_build_loop sanitize_name reg (ops # rest) b progress =
     (case pre_build_ops sanitize_name reg ops b of
        (Inl e, b') \<Rightarrow> (Inl e, b', progress)
      | (Inr u, b') \<Rightarrow> pre_build_loop sanitize_name reg rest b' (map_option Suc progress))"

definition pre_build ::
  "(string \<Rightarrow> string) \<Rightarrow> (pytype \<rightharpoonup> build_class) \<Rightarrow> builder \<Rightarrow> nat option
     \<Rightarrow> (error + unit) \<times> builder \<times> nat option" where
  "pre_build sanitize_name reg b progress =
     pre_build_loop sanitize_name reg (plan b) b progress"

text \<open>
  The body of the loop of \<^verbatim>\<open>Builder.build\<close> for one group: the step of the group's
  builder, inside its scope.
\<close>

definition build_ops ::
  "(string \<Rightarrow> string) \<Rightarrow> (pytype \<rightharpoonup> build_class) \<Rightarrow> group \<Rightarrow> builder
     \<Rightarrow> (error + pyval) \<times> builder" where
  "build_ops sanitize_name reg ops b =
     (case name_scope sanitize_name reg ops of
        Inl e \<Rightarrow> (Inl e, b)
      | Inr nm \<Rightarrow>
          (case op_builds b ops of
             None \<Rightarrow> (Inl KeyError, enter_scope nm b)
           | Some inst \<Rightarrow>
               (case call_build_step inst (signals b) of
                  (r, inst', sg) \<Rightarrow>
                    (r, (enter_scope nm b)
                       \<lparr>signals := sg,
                        op_builds := (op_builds b)(ops \<mapsto> inst'),
                        call_log := call_log b @ [BuildStep ops r]\<rparr>))))"

text \<open>What the two \<^verbatim>\<open>isinstance\<close> branches do to \<^verbatim>\<open>side_effects\<close>.\<close>

definition collect :: "pyval \<Rightarrow> pyval list \<Rightarrow> pyval list" where
  "collect output side_effects =
     (if is_tensor_or_variable output then side_effects @ [output]
      else if is_list_or_tuple output then side_effects @ list_of output
      else side_effects)"

fun build_loop ::
  "(string \<Rightarrow> string) \<Rightarrow> (pytype \<rightharpoonup> build_class) \<Rightarrow> group list \<Rightarrow> builder
     \<Rightarrow> pyval list \<Rightarrow> nat option \<Rightarrow> (error + pyval list) \<times> builder \<times> nat option" where
  "build_loop sanitize_name reg [] b side_effects progress = (Inr side_effects, b, progress)"
| "build_loop sanitize_name reg (ops # rest) b side_effects progress =
     (case build_ops sanitize_name reg ops b of
        (Inl e, b') \<Rightarrow> (Inl e, b', progress)
      | (Inr output, b') \<Rightarrow>
          build_loop sanitize_name reg rest b' (collect output side_effects)
            (map_option Suc progress))"

definition build ::
  "(string \<Rightarrow> string) \<Rightarrow> (pytype \<rightharpoonup> build_class) \<Rightarrow> builder \<Rightarrow> nat option
     \<Rightarrow> (error + pyval list) \<times> builder \<times> nat option" where
  "build sanitize_name reg b progress =
     build_loop sanitize_name reg (plan b) b [] progress"

section \<open>NengoBuilder\<close>

text \<open>
  \<^verbatim>\<open>nengo.builder.Builder.build\<close> belongs to Nengo, not to this module. It is the
  parameter \<open>Builder_build\<close>, called with the class whose registry it is to use.
\<close>

datatype builder_cls = NengoBuilder_cls | Nengo_Builder_cls

definition NengoBuilder_build ::
  "(builder_cls \<Rightarrow> 'm \<Rightarrow> 'o \<Rightarrow> 'a \<Rightarrow> (error + 'v) \<times> 'm) \<Rightarrow> 'm \<Rightarrow> 'o \<Rightarrow> 'a
     \<Rightarrow> (error + 'v) \<times> 'm" where
  "NengoBuilder_build Builder_build model obj args =
     (case Builder_build NengoBuilder_cls model obj args of
        (Inr v, model') \<Rightarrow> (Inr v, model')
      | (Inl e, model') \<Rightarrow>
          if is_BuildError e then Builder_build Nengo_Builder_cls model' obj args
          else (Inl e, model'))"

section \<open>NengoModel\<close>

text \<open>
  Of the model, \<^verbatim>\<open>add_op\<close> uses the operator list, the time step and the flag.
  \<open>op_calls\<close> is not an attribute: it lists the operator methods called so far.
\<close>

datatype op_call = InitSignals operator | MakeStep operator

record nengo_model =
  operators :: "operator list"
  dt :: real
  fail_fast :: bool
  op_calls :: "op_call list"

text \<open>
  \<^verbatim>\<open>NengoModel.add_op\<close>. \<^verbatim>\<open>signal.SignalDict()\<close> is a new, empty dictionary that is
  dropped when \<^verbatim>\<open>add_op\<close> ends.
\<close>

definition add_op :: "operator \<Rightarrow> nengo_model \<Rightarrow> (error + unit) \<times> nengo_model" where
  "add_op x m =
     (let m1 = m\<lparr>operators := operators m @ [x]\<rparr> in
      if fail_fast m1 then
        (case op_init_signals x Map.empty of
           (Inl e, sd) \<Rightarrow> (Inl e, m1\<lparr>op_calls := op_calls m1 @ [InitSignals x]\<rparr>)
         | (Inr u, sd) \<Rightarrow>
             (case op_make_step x sd (dt m1) of
                Inl e \<Rightarrow> (Inl e, m1\<lparr>op_calls := op_calls m1 @ [InitSignals x, MakeStep x]\<rparr>)
              | Inr u' \<Rightarrow>
                  (Inr (), m1\<lparr>op_calls := op_calls m1 @ [InitSignals x, MakeStep x]\<rparr>)))
      else (Inr (), m1))"

section \<open>Notions used to state the properties\<close>

text \<open>
  What one step output adds to the side effects, in the words of the specification: a
  single handle (a tensor or a variable) is one side effect, a sequence gives all its
  elements in order, anything else gives nothing. \<open>flattened\<close> puts the contributions
  of a list of outputs one after the other.
\<close>

fun contribution :: "pyval \<Rightarrow> pyval list" where
  "contribution (PTensor h) = [PTensor h]"
| "contribution (PVariable h) = [PVariable h]"
| "contribution (PList xs) = xs"
| "contribution (PTuple xs) = xs"
| "contribution v = []"

definition flattened :: "pyval list \<Rightarrow> pyval list" where
  "flattened outs = concat (map contribution outs)"

text \<open>The groups whose constructor, or whose step, a call log records, in order.\<close>

fun stepped :: "call \<Rightarrow> group list" where
  "stepped (BuildStep g r) = [g]"
| "stepped (Construct g c) = []"

fun constructed :: "call \<Rightarrow> group list" where
  "constructed (Construct g c) = [g]"
| "constructed (BuildStep g r) = []"

definition stepped_groups :: "call list \<Rightarrow> group list" where
  "stepped_groups cs = concat (map stepped cs)"

definition constructed_groups :: "call list \<Rightarrow> group list" where
  "constructed_groups cs = concat (map constructed cs)"

text \<open>
  A build class whose step returns on every input. A builder is \<open>ready\<close> when every
  group of its plan has a registered type (so that its scope can be named) and an
  instantiated builder in \<^verbatim>\<open>op_builds\<close> whose step returns.
\<close>

definition step_returns :: "build_class \<Rightarrow> bool" where
  "step_returns cls \<longleftrightarrow> (\<forall>d sg. \<exists>v. fst (resolve_build_step cls d sg) = Inr v)"

definition ready :: "(pytype \<rightharpoonup> build_class) \<Rightarrow> builder \<Rightarrow> bool" where
  "ready reg b \<longleftrightarrow>
     (\<forall>ops\<in>set (plan b).
        (\<exists>t cls. type_of_first ops = Inr t \<and> reg t = Some cls)
      \<and> (\<exists>inst. op_builds b ops = Some inst \<and> step_returns (inst_class inst)))"

definition ready_for :: "(pytype \<rightharpoonup> build_class) \<Rightarrow> group set \<Rightarrow> builder \<Rightarrow> bool" where
  "ready_for reg G b \<longleftrightarrow>
     (\<forall>ops\<in>G.
        (\<exists>t cls. type_of_first ops = Inr t \<and> reg t = Some cls)
      \<and> (\<exists>inst. op_builds b ops = Some inst \<and> step_returns (inst_class inst)))"

text \<open>
  The constructions that the plan asks for, in the words of the specification: for each
  group in plan order, the class registered for the type of its first operator is
  instantiated, each constructor starting from the signals the one before it left.
  \<open>construct_run\<close> gives the instances, one per entry of the plan, and the final
  signals; it gives \<open>None\<close> when a group is empty, a type has no class, or a
  constructor raises.
\<close>

fun construct_run ::
  "(pytype \<rightharpoonup> build_class) \<Rightarrow> build_config \<Rightarrow> group list \<Rightarrow> tf_signals
     \<Rightarrow> (opbuilder list \<times> tf_signals) option" where
  "construct_run classes cfg [] sg = Some ([], sg)"
| "construct_run classes cfg (g # gs) sg =
     (case type_of_first g of
        Inl e \<Rightarrow> None
      | Inr t \<Rightarrow>
          (case classes t of
             None \<Rightarrow> None
           | Some cls \<Rightarrow>
               (case resolve_init cls g sg cfg of
                  (Inl e, sg1) \<Rightarrow> None
                | (Inr d, sg1) \<Rightarrow>
                    (case construct_run classes cfg gs sg1 of
                       None \<Rightarrow> None
                     | Some (insts, sg') \<Rightarrow>
                         Some (\<lparr>inst_class = cls, inst_attrs = d\<rparr> # insts, sg')))))"

text \<open>
  The steps that the plan asks for: for each group in plan order, one call of the step of
  the builder stored for the group, on that builder's attributes and on the signals the
  step before it left; what the step writes into the builder is kept for the next call.
  \<open>step_run\<close> gives the outputs, one per entry of the plan, the builders and the signals
  at the end; it gives \<open>None\<close> when a group has no builder or a step raises.
\<close>

fun step_run ::
  "group list \<Rightarrow> (group \<rightharpoonup> opbuilder) \<Rightarrow> tf_signals
     \<Rightarrow> (pyval list \<times> (group \<rightharpoonup> opbuilder) \<times> tf_signals) option" where
  "step_run [] obs sg = Some ([], obs, sg)"
| "step_run (g # gs) obs sg =
     (case obs g of
        None \<Rightarrow> None
      | Some inst \<Rightarrow>
          (case resolve_build_step (inst_class inst) (inst_attrs inst) sg of
             (Inl e, d, sg1) \<Rightarrow> None
           | (Inr v, d, sg1) \<Rightarrow>
               (case step_run gs (obs(g \<mapsto> inst\<lparr>inst_attrs := d\<rparr>)) sg1 of
                  None \<Rightarrow> None
                | Some (outs, obs', sg') \<Rightarrow> Some (v # outs, obs', sg'))))"

text \<open>The builder after \<open>n\<close> calls of \<^verbatim>\<open>build\<close> in a row.\<close>

fun build_times ::
  "nat \<Rightarrow> (string \<Rightarrow> string) \<Rightarrow> (pytype \<rightharpoonup> build_class) \<Rightarrow> builder \<Rightarrow> builder" where
  "build_times 0 sn reg b = b"
| "build_times (Suc n) sn reg b = build_times n sn reg (fst (snd (build sn reg b None)))"

section \<open>Example objects\<close>

text \<open>
  An operator whose two methods return, a subclass of \<^verbatim>\<open>OpBuilder\<close> that inherits
  the constructor and whose step returns a fixed output, and a configuration.
\<close>

definition ex_op :: "nat \<Rightarrow> pytype \<Rightarrow> operator" where
  "ex_op i t = \<lparr>op_id = i, op_type = t,
               op_init_signals = (\<lambda>sd. (Inr (), sd)),
               op_make_step = (\<lambda>sd h. Inr ())\<rparr>"

definition ex_class :: "string \<Rightarrow> pyval \<Rightarrow> build_class" where
  "ex_class nm out = \<lparr>bc_name = nm, bc_is_opbuilder = True, bc_init = None,
                     bc_build_step = Some (\<lambda>self sg. (Inr out, self, sg))\<rparr>"

definition ex_config :: build_config where
  "ex_config = \<lparr>inference_only = False, lif_smoothing = 0, cpu_only = True\<rparr>"

text \<open>
  A build class with state: its constructor records the size of the group on the instance
  and writes signal \<open>0\<close>; its step reads both, returns a tensor numbered by their sum,
  and advances both. The step raises when either is missing. Then a registration history
  and a plan of two groups.
\<close>

definition ex_stateful_class :: build_class where
  "ex_stateful_class =
     \<lparr>bc_name = ''SimNeuronsBuilder'', bc_is_opbuilder = True,
      bc_init = Some (\<lambda>ops sg cfg.
        (Inr (Map.empty(''config'' \<mapsto> AConfig cfg,
                        ''state'' \<mapsto> AValue (PTensor (length ops)))),
         sg(0 \<mapsto> PTensor 10))),
      bc_build_step = Some (\<lambda>self sg.
        (case (self ''state'', sg 0) of
           (Some (AValue (PTensor k)), Some (PTensor h)) \<Rightarrow>
             (Inr (PTensor (k + h)), self(''state'' \<mapsto> AValue (PTensor (Suc k))),
              sg(0 \<mapsto> PTensor (Suc h)))
         | _ \<Rightarrow> (Inl (AttributeError ''state''), self, sg)))\<rparr>"

definition ex_regs :: "(pytype \<times> build_class) list" where
  "ex_regs = [(''SimNeurons'', ex_stateful_class),
              (''Reset'', ex_class ''ResetBuilder'' (PList [PTensor 1, PVariable 2]))]"

definition ex_plan :: "group list" where
  "ex_plan = [[ex_op 1 ''SimNeurons'', ex_op 2 ''SimNeurons''], [ex_op 3 ''Reset'']]"

section \<open>Lemmas about the registry and the two loops\<close>

lemma collect_contribution: "collect v acc = acc @ contribution v"
  by (cases v) (simp_all add: collect_def)

lemma stepped_groups_append [simp]:
  "stepped_groups (xs @ ys) = stepped_groups xs @ stepped_groups ys"
  by (simp add: stepped_groups_def)

lemma constructed_groups_append [simp]:
  "constructed_groups (xs @ ys) = constructed_groups xs @ constructed_groups ys"
  by (simp add: constructed_groups_def)

lemma groups_of_steps:
  "length outs = length gs \<Longrightarrow>
     stepped_groups (map2 (\<lambda>g v. BuildStep g (Inr v)) gs outs) = gs
   \<and> constructed_groups (map2 (\<lambda>g v. BuildStep g (Inr v)) gs outs) = []"
  by (induction gs outs rule: list_induct2') (simp_all add: stepped_groups_def constructed_groups_def)

lemma groups_of_constructs:
  "length clss = length gs \<Longrightarrow>
     constructed_groups (map2 Construct gs clss) = gs
   \<and> stepped_groups (map2 Construct gs clss) = []"
  by (induction gs clss rule: list_induct2') (simp_all add: stepped_groups_def constructed_groups_def)

lemma register_builder_simps:
  "fst (register T B g) = Inr B"
  "builders (snd (register T B g)) = (builders g)(T \<mapsto> B)"
  "warnings (snd (register T B g)) =
     warnings g @ (if bc_is_opbuilder B then [] else [''Build classes should inherit from OpBuilder''])
       @ (if builders g T \<noteq> None
          then [''Operator '' @ [CHR 0x27] @ repr_type T @ [CHR 0x27] @
                '' already has a builder. Overwriting.'']
          else [])"
  by (simp_all add: register_def register_builder_def Let_def warn_def)

lemma register_all_other:
  "t \<notin> fst ` set regs \<Longrightarrow> builders (register_all regs g) t = builders g t"
  by (induction regs arbitrary: g) (auto simp: register_builder_simps)

lemma register_all_once:
  "count_list (map fst regs) t = 1 \<Longrightarrow> (t, c) \<in> set regs \<Longrightarrow>
     builders (register_all regs g) t = Some c"
proof (induction regs arbitrary: g)
  case Nil
  then show ?case by simp
next
  case (Cons r regs)
  obtain t' c' where r: "r = (t', c')" by (cases r)
  show ?case
  proof (cases "t' = t")
    case True
    with Cons.prems(1) r have "count_list (map fst regs) t = 0" by simp
    then have notin: "t \<notin> fst ` set regs"
      by (metis count_list_0_iff list.set_map)
    with Cons.prems(2) r True have "c' = c" by force
    with notin r True show ?thesis
      by (simp add: register_all_other register_builder_simps)
  next
    case False
    with Cons.prems r have "count_list (map fst regs) t = 1" "(t, c) \<in> set regs" by auto
    from Cons.IH[OF this] r show ?thesis by simp
  qed
qed

lemma pre_build_loop_append:
  "pre_build_loop sn reg (xs @ ys) b p =
     (case pre_build_loop sn reg xs b p of
        (Inl e, b', p') \<Rightarrow> (Inl e, b', p')
      | (Inr u, b', p') \<Rightarrow> pre_build_loop sn reg ys b' p')"
  by (induction xs arbitrary: b p) (auto split: prod.splits sum.splits)

lemma pre_build_ops_unregistered:
  "type_of_first ops = Inr t \<Longrightarrow> reg t = None \<Longrightarrow>
     pre_build_ops sn reg ops b =
       (Inl (BuildError (''No registered builder for operators of type '' @ repr_type t)), b)"
  by (simp add: pre_build_ops_def)

lemma pre_build_ops_Inr:
  assumes "pre_build_ops sn reg ops b = (Inr u, b')"
  shows "\<exists>t cls inst sg. type_of_first ops = Inr t \<and> reg t = Some cls
           \<and> instantiate cls ops (signals b) (config b) = (Inr inst, sg)
           \<and> b' = b\<lparr>graph := graph b @ [sn (bc_name cls)], signals := sg,
                     op_builds := (op_builds b)(ops \<mapsto> inst),
                     call_log := call_log b @ [Construct ops cls]\<rparr>"
  using assms
  by (auto simp: pre_build_ops_def name_scope_def enter_scope_def
           split: sum.splits option.splits prod.splits)

lemma pre_build_loop_Inr_frame:
  "pre_build_loop sn reg gs b p = (Inr u, b', p') \<Longrightarrow>
     (\<forall>g. g \<notin> set gs \<longrightarrow> op_builds b' g = op_builds b g)
   \<and> (\<forall>g\<in>set gs. \<exists>t cls. type_of_first g = Inr t \<and> reg t = Some cls)"
proof (induction gs arbitrary: b p)
  case Nil
  then show ?case by simp
next
  case (Cons g gs)
  from Cons.prems obtain b1 where
    s1: "pre_build_ops sn reg g b = (Inr (), b1)"
    and s2: "pre_build_loop sn reg gs b1 (map_option Suc p) = (Inr u, b', p')"
    by (auto split: prod.splits sum.splits)
  from pre_build_ops_Inr[OF s1] obtain t cls inst where
    f: "type_of_first g = Inr t" "reg t = Some cls"
       "op_builds b1 = (op_builds b)(g \<mapsto> inst)"
    by auto
  from Cons.IH[OF s2] f show ?case by auto
qed

lemma pre_build_ops_registered:
  assumes "type_of_first ops = Inr t" and "reg t = Some cls"
  shows "call_log (snd (pre_build_ops sn reg ops b)) = call_log b @ [Construct ops cls]"
    and "instantiate cls ops (signals b) (config b) = (Inr inst, sg) \<Longrightarrow>
         pre_build_ops sn reg ops b =
           (Inr (), b\<lparr>graph := graph b @ [sn (bc_name cls)], signals := sg,
                     op_builds := (op_builds b)(ops \<mapsto> inst),
                     call_log := call_log b @ [Construct ops cls]\<rparr>)"
    and "instantiate cls ops (signals b) (config b) = (Inl e, sg) \<Longrightarrow>
         pre_build_ops sn reg ops b =
           (Inl e, b\<lparr>graph := graph b @ [sn (bc_name cls)], signals := sg,
                     call_log := call_log b @ [Construct ops cls]\<rparr>)"
  using assms
  by (auto simp: pre_build_ops_def name_scope_def enter_scope_def
           split: sum.splits option.splits prod.splits)

lemma pre_build_loop_log_prefix:
  "\<exists>rest. call_log (fst (snd (pre_build_loop sn reg gs b p))) = call_log b @ rest"
proof (induction gs arbitrary: b p)
  case Nil
  then show ?case by simp
next
  case (Cons g gs)
  obtain r b1 where s: "pre_build_ops sn reg g b = (r, b1)"
    by (cases "pre_build_ops sn reg g b")
  then have "\<exists>rest. call_log b1 = call_log b @ rest"
    by (auto simp: pre_build_ops_def name_scope_def enter_scope_def
             split: sum.splits option.splits prod.splits)
  then obtain r1 where r1: "call_log b1 = call_log b @ r1" by blast
  show ?case
  proof (cases r)
    case (Inl e)
    with s r1 show ?thesis by simp
  next
    case (Inr u)
    from Cons.IH[of b1 "map_option Suc p"] obtain r2 where
      "call_log (fst (snd (pre_build_loop sn reg gs b1 (map_option Suc p)))) = call_log b1 @ r2"
      by blast
    with s Inr r1 show ?thesis by simp
  qed
qed

lemma build_ops_Inr:
  assumes "build_ops sn reg ops b = (Inr v, b')"
  shows "call_log b' = call_log b @ [BuildStep ops (Inr v)] \<and> plan b' = plan b"
  using assms
  by (auto simp: build_ops_def enter_scope_def call_build_step_def
           split: sum.splits option.splits prod.splits)

lemma build_loop_Inr:
  "build_loop sn reg gs b acc p = (Inr se, b', p') \<Longrightarrow>
     \<exists>outs. length outs = length gs
       \<and> se = acc @ flattened outs
       \<and> call_log b' = call_log b @ map2 (\<lambda>g v. BuildStep g (Inr v)) gs outs
       \<and> plan b' = plan b
       \<and> p' = map_option (\<lambda>n. n + length gs) p"
proof (induction gs arbitrary: b acc p)
  case Nil
  then show ?case by (auto simp: flattened_def option.map_ident)
next
  case (Cons g gs)
  from Cons.prems obtain v b1 where
    s1: "build_ops sn reg g b = (Inr v, b1)"
    and s2: "build_loop sn reg gs b1 (collect v acc) (map_option Suc p) = (Inr se, b', p')"
    by (auto split: prod.splits sum.splits)
  from Cons.IH[OF s2] obtain outs where o:
    "length outs = length gs" "se = collect v acc @ flattened outs"
    "call_log b' = call_log b1 @ map2 (\<lambda>g v. BuildStep g (Inr v)) gs outs"
    "plan b' = plan b1"
    "p' = map_option (\<lambda>n. n + length gs) (map_option Suc p)"
    by blast
  from build_ops_Inr[OF s1] have l1: "call_log b1 = call_log b @ [BuildStep g (Inr v)]"
    and pl: "plan b1 = plan b" by simp_all
  have "length (v # outs) = length (g # gs)" using o(1) by simp
  moreover have "se = acc @ flattened (v # outs)"
    using o(2) by (simp add: collect_contribution flattened_def)
  moreover have "call_log b' = call_log b @ map2 (\<lambda>g v. BuildStep g (Inr v)) (g # gs) (v # outs)"
    using o(3) l1 by simp
  moreover have "plan b' = plan b" using o(4) pl by simp
  moreover have "p' = map_option (\<lambda>n. n + length (g # gs)) p"
    using o(5) by (cases p) simp_all
  ultimately show ?case by blast
qed

lemma build_ops_ready:
  assumes "ready_for reg G b" and "ops \<in> G"
  shows "\<exists>v b'. build_ops sn reg ops b = (Inr v, b') \<and> ready_for reg G b'"
proof -
  from assms obtain t cls inst where
    t: "type_of_first ops = Inr t" "reg t = Some cls"
    and i: "op_builds b ops = Some inst" "step_returns (inst_class inst)"
    unfolding ready_for_def by blast
  obtain r d sg where st: "resolve_build_step (inst_class inst) (inst_attrs inst) (signals b) = (r, d, sg)"
    by (cases "resolve_build_step (inst_class inst) (inst_attrs inst) (signals b)") auto
  from i(2) obtain v where "fst (resolve_build_step (inst_class inst) (inst_attrs inst) (signals b)) = Inr v"
    unfolding step_returns_def by blast
  with st have r: "r = Inr v" by simp
  let ?b' = "b\<lparr>graph := graph b @ [sn (bc_name cls)], signals := sg,
                op_builds := (op_builds b)(ops \<mapsto> inst\<lparr>inst_attrs := d\<rparr>),
                call_log := call_log b @ [BuildStep ops (Inr v)]\<rparr>"
  have e: "build_ops sn reg ops b = (Inr v, ?b')"
    using t i(1) st r
    by (simp add: build_ops_def name_scope_def enter_scope_def call_build_step_def)
  have "ready_for reg G ?b'"
    using assms(1) i unfolding ready_for_def by auto
  with e show ?thesis by blast
qed

lemma build_loop_ready:
  "ready_for reg G b \<Longrightarrow> set gs \<subseteq> G \<Longrightarrow>
     \<exists>se b' p'. build_loop sn reg gs b acc p = (Inr se, b', p') \<and> ready_for reg G b'"
proof (induction gs arbitrary: b acc p)
  case Nil
  then show ?case by simp
next
  case (Cons g gs)
  from Cons.prems have "g \<in> G" by simp
  from build_ops_ready[OF Cons.prems(1) this] obtain v b1 where
    s: "build_ops sn reg g b = (Inr v, b1)" and r: "ready_for reg G b1" by blast
  from Cons.prems have "set gs \<subseteq> G" by simp
  from Cons.IH[OF r this] obtain se b' p' where
    "build_loop sn reg gs b1 (collect v acc) (map_option Suc p) = (Inr se, b', p')"
    "ready_for reg G b'" by blast
  with s show ?case by simp
qed

lemma ready_ready_for: "ready reg b = ready_for reg (set (plan b)) b"
  by (simp add: ready_def ready_for_def)

lemma build_ready:
  assumes "ready reg b"
  shows "\<exists>outs b'. build sn reg b p = (Inr (flattened outs), b', map_option (\<lambda>n. n + length (plan b)) p)
           \<and> length outs = length (plan b)
           \<and> call_log b' = call_log b @ map2 (\<lambda>g v. BuildStep g (Inr v)) (plan b) outs
           \<and> plan b' = plan b \<and> ready reg b'"
proof -
  from assms have rf: "ready_for reg (set (plan b)) b" by (simp add: ready_ready_for)
  from build_loop_ready[OF rf subset_refl] obtain se b' p' where
    e: "build_loop sn reg (plan b) b [] p = (Inr se, b', p')"
    and r: "ready_for reg (set (plan b)) b'" by blast
  from build_loop_Inr[OF e] obtain outs where o:
    "length outs = length (plan b)" "se = flattened outs"
    "call_log b' = call_log b @ map2 (\<lambda>g v. BuildStep g (Inr v)) (plan b) outs"
    "plan b' = plan b" "p' = map_option (\<lambda>n. n + length (plan b)) p"
    by auto
  from r o(4) have "ready reg b'" by (simp add: ready_ready_for)
  with e o show ?thesis unfolding build_def by auto
qed

lemma register_all_map_of:
  assumes "count_list (map fst regs) t = 1"
  shows "builders (register_all regs g) t = map_of regs t"
proof -
  from assms have "t \<in> fst ` set regs"
    by (metis count_list_0_iff list.set_map zero_neq_one)
  then obtain c where c: "map_of regs t = Some c"
    by (metis domD dom_map_of_conv_image_fst)
  then have "(t, c) \<in> set regs" by (rule map_of_SomeD)
  from register_all_once[OF assms this] c show ?thesis by simp
qed

lemma construct_run_cong:
  "(\<forall>g\<in>set gs. \<forall>t. type_of_first g = Inr t \<longrightarrow> r1 t = r2 t) \<Longrightarrow>
     construct_run r1 cfg gs sg = construct_run r2 cfg gs sg"
  by (induction gs arbitrary: sg) (auto split: sum.splits option.splits prod.splits)

lemma construct_run_classes:
  "construct_run classes cfg gs sg = Some (insts, sg') \<Longrightarrow>
     list_all2 (\<lambda>g inst. \<exists>t. type_of_first g = Inr t \<and> classes t = Some (inst_class inst))
       gs insts"
  by (induction gs arbitrary: sg insts)
     (auto split: sum.splits option.splits prod.splits)

lemma pre_build_ops_frame:
  "plan (snd (pre_build_ops sn reg g b)) = plan b
   \<and> config (snd (pre_build_ops sn reg g b)) = config b"
  by (auto simp: pre_build_ops_def name_scope_def enter_scope_def
           split: sum.splits option.splits prod.splits)

lemma pre_build_loop_plan:
  "plan (fst (snd (pre_build_loop sn reg gs b p))) = plan b"
proof (induction gs arbitrary: b p)
  case Nil
  then show ?case by simp
next
  case (Cons g gs)
  obtain r b1 where s: "pre_build_ops sn reg g b = (r, b1)"
    by (cases "pre_build_ops sn reg g b")
  with pre_build_ops_frame[of sn reg g b] have "plan b1 = plan b" by simp
  with s Cons.IH[of b1 "map_option Suc p"] show ?case
    by (cases r) simp_all
qed

lemma pre_build_loop_run_Some:
  "construct_run reg (config b) gs (signals b) = Some (insts, sg') \<Longrightarrow>
     \<exists>b1. pre_build_loop sn reg gs b p = (Inr (), b1, map_option (\<lambda>n. n + length gs) p)
       \<and> length insts = length gs
       \<and> signals b1 = sg'
       \<and> op_builds b1 = op_builds b ++ map_of (rev (zip gs insts))
       \<and> call_log b1 = call_log b @ map2 Construct gs (map inst_class insts)"
proof (induction gs arbitrary: b p insts)
  case Nil
  then show ?case by (simp add: option.map_ident)
next
  case (Cons g gs)
  from Cons.prems obtain t cls d sg1 insts' where
    t: "type_of_first g = Inr t" "reg t = Some cls"
    and i: "resolve_init cls g (signals b) (config b) = (Inr d, sg1)"
    and r: "construct_run reg (config b) gs sg1 = Some (insts', sg')"
    and ins: "insts = \<lparr>inst_class = cls, inst_attrs = d\<rparr> # insts'"
    by (auto split: sum.splits option.splits prod.splits)
  let ?inst = "\<lparr>inst_class = cls, inst_attrs = d\<rparr>"
  let ?b' = "b\<lparr>graph := graph b @ [sn (bc_name cls)], signals := sg1,
                op_builds := (op_builds b)(g \<mapsto> ?inst),
                call_log := call_log b @ [Construct g cls]\<rparr>"
  from i have "instantiate cls g (signals b) (config b) = (Inr ?inst, sg1)"
    by (simp add: instantiate_def)
  from pre_build_ops_registered(2)[where reg = reg and t = t, OF t this]
  have s: "pre_build_ops sn reg g b = (Inr (), ?b')" .
  from r have "construct_run reg (config ?b') gs (signals ?b') = Some (insts', sg')" by simp
  from Cons.IH[OF this, of "map_option Suc p"] obtain b1 where
    l: "pre_build_loop sn reg gs ?b' (map_option Suc p) =
          (Inr (), b1, map_option (\<lambda>n. n + length gs) (map_option Suc p))"
    and len: "length insts' = length gs"
    and sg: "signals b1 = sg'"
    and ob: "op_builds b1 = op_builds ?b' ++ map_of (rev (zip gs insts'))"
    and cl: "call_log b1 = call_log ?b' @ map2 Construct gs (map inst_class insts')"
    by blast
  have prog: "map_option (\<lambda>n. n + length gs) (map_option Suc p) =
              map_option (\<lambda>n. n + length (g # gs)) p"
    by (cases p) simp_all
  have 1: "pre_build_loop sn reg (g # gs) b p =
             (Inr (), b1, map_option (\<lambda>n. n + length (g # gs)) p)"
    using s l prog by simp
  have 2: "length insts = length (g # gs)" using len ins by simp
  have 3: "op_builds b1 = op_builds b ++ map_of (rev (zip (g # gs) insts))"
    using ob ins by (simp add: map_add_upd_left)
  have 4: "call_log b1 = call_log b @ map2 Construct (g # gs) (map inst_class insts)"
    using cl ins by simp
  from 1 2 sg 3 4 show ?case by blast
qed

lemma pre_build_loop_run_None:
  "construct_run reg (config b) gs (signals b) = None \<Longrightarrow>
     \<exists>e b1 p1. pre_build_loop sn reg gs b p = (Inl e, b1, p1)"
proof (induction gs arbitrary: b p)
  case Nil
  then show ?case by simp
next
  case (Cons g gs)
  obtain r b' where s: "pre_build_ops sn reg g b = (r, b')"
    by (cases "pre_build_ops sn reg g b")
  show ?case
  proof (cases r)
    case (Inl e)
    with s show ?thesis by simp
  next
    case (Inr u)
    with s have s': "pre_build_ops sn reg g b = (Inr (), b')" by simp
    from pre_build_ops_Inr[OF s'] obtain t cls inst sg where
      t: "type_of_first g = Inr t" "reg t = Some cls"
      and i: "instantiate cls g (signals b) (config b) = (Inr inst, sg)"
      and b': "b' = b\<lparr>graph := graph b @ [sn (bc_name cls)], signals := sg,
                     op_builds := (op_builds b)(g \<mapsto> inst),
                     call_log := call_log b @ [Construct g cls]\<rparr>"
      by blast
    from i obtain d where "resolve_init cls g (signals b) (config b) = (Inr d, sg)"
      by (auto simp: instantiate_def split: prod.splits sum.splits)
    with Cons.prems t have "construct_run reg (config b) gs sg = None"
      by (auto split: option.splits)
    with b' have "construct_run reg (config b') gs (signals b') = None" by simp
    from Cons.IH[OF this, of "map_option Suc p"] s' show ?thesis by auto
  qed
qed

lemma build_ops_plan: "plan (snd (build_ops sn reg g b)) = plan b"
  by (auto simp: build_ops_def name_scope_def enter_scope_def
           split: sum.splits option.splits prod.splits)

lemma build_loop_plan: "plan (fst (snd (build_loop sn reg gs b acc p))) = plan b"
proof (induction gs arbitrary: b acc p)
  case Nil
  then show ?case by simp
next
  case (Cons g gs)
  obtain r b1 where s: "build_ops sn reg g b = (r, b1)"
    by (cases "build_ops sn reg g b")
  with build_ops_plan[of sn reg g b] have "plan b1 = plan b" by simp
  with s Cons.IH[of b1] show ?case
    by (cases r) simp_all
qed

lemma build_times_plan: "plan (build_times n sn reg b) = plan b"
  by (induction n arbitrary: b) (simp_all add: build_def build_loop_plan)

lemma build_ops_step:
  assumes "type_of_first g = Inr t" and "reg t = Some cls" and "op_builds b g = Some inst"
    and "resolve_build_step (inst_class inst) (inst_attrs inst) (signals b) = (r, d, sg1)"
  shows "build_ops sn reg g b =
           (r, b\<lparr>graph := graph b @ [sn (bc_name cls)], signals := sg1,
                  op_builds := (op_builds b)(g \<mapsto> inst\<lparr>inst_attrs := d\<rparr>),
                  call_log := call_log b @ [BuildStep g r]\<rparr>)"
  using assms
  by (simp add: build_ops_def name_scope_def enter_scope_def call_build_step_def)

lemma build_loop_run_Some:
  "step_run gs (op_builds b) (signals b) = Some (outs, obs', sg') \<Longrightarrow>
   \<forall>g\<in>set gs. \<exists>t cls. type_of_first g = Inr t \<and> reg t = Some cls \<Longrightarrow>
     \<exists>b2. build_loop sn reg gs b acc p =
            (Inr (acc @ flattened outs), b2, map_option (\<lambda>n. n + length gs) p)
       \<and> length outs = length gs
       \<and> signals b2 = sg' \<and> op_builds b2 = obs'
       \<and> call_log b2 = call_log b @ map2 (\<lambda>g v. BuildStep g (Inr v)) gs outs"
proof (induction gs arbitrary: b acc p outs)
  case Nil
  then show ?case by (simp add: flattened_def option.map_ident)
next
  case (Cons g gs)
  from Cons.prems(2) obtain t cls where t: "type_of_first g = Inr t" "reg t = Some cls"
    by auto
  from Cons.prems(1) obtain inst v d sg1 outs' where
    i: "op_builds b g = Some inst"
    and st: "resolve_build_step (inst_class inst) (inst_attrs inst) (signals b) = (Inr v, d, sg1)"
    and r: "step_run gs ((op_builds b)(g \<mapsto> inst\<lparr>inst_attrs := d\<rparr>)) sg1 = Some (outs', obs', sg')"
    and o: "outs = v # outs'"
    by (auto split: sum.splits option.splits prod.splits)
  let ?b' = "b\<lparr>graph := graph b @ [sn (bc_name cls)], signals := sg1,
                op_builds := (op_builds b)(g \<mapsto> inst\<lparr>inst_attrs := d\<rparr>),
                call_log := call_log b @ [BuildStep g (Inr v)]\<rparr>"
  from build_ops_step[where reg = reg and t = t, OF t i st]
  have s: "build_ops sn reg g b = (Inr v, ?b')" .
  from r have r': "step_run gs (op_builds ?b') (signals ?b') = Some (outs', obs', sg')" by simp
  from Cons.prems(2) have
    "\<forall>g\<in>set gs. \<exists>t cls. type_of_first g = Inr t \<and> reg t = Some cls" by simp
  from Cons.IH[OF r' this, of "collect v acc" "map_option Suc p"] obtain b2 where
    l: "build_loop sn reg gs ?b' (collect v acc) (map_option Suc p) =
          (Inr (collect v acc @ flattened outs'), b2,
           map_option (\<lambda>n. n + length gs) (map_option Suc p))"
    and len: "length outs' = length gs"
    and sg: "signals b2 = sg'" and ob: "op_builds b2 = obs'"
    and cl: "call_log b2 = call_log ?b' @ map2 (\<lambda>g v. BuildStep g (Inr v)) gs outs'"
    by blast
  have prog: "map_option (\<lambda>n. n + length gs) (map_option Suc p) =
              map_option (\<lambda>n. n + length (g # gs)) p"
    by (cases p) simp_all
  have 1: "build_loop sn reg (g # gs) b acc p =
             (Inr (acc @ flattened outs), b2, map_option (\<lambda>n. n + length (g # gs)) p)"
    using s l prog o by (simp add: collect_contribution flattened_def)
  have 2: "length outs = length (g # gs)" using len o by simp
  have 3: "call_log b2 = call_log b @ map2 (\<lambda>g v. BuildStep g (Inr v)) (g # gs) outs"
    using cl o by simp
  from 1 2 sg ob 3 show ?case by blast
qed

lemma build_loop_run_None:
  "step_run gs (op_builds b) (signals b) = None \<Longrightarrow>
     \<exists>e b2 p2. build_loop sn reg gs b acc p = (Inl e, b2, p2)"
proof (induction gs arbitrary: b acc p)
  case Nil
  then show ?case by simp
next
  case (Cons g gs)
  obtain r b' where s: "build_ops sn reg g b = (r, b')"
    by (cases "build_ops sn reg g b")
  show ?case
  proof (cases r)
    case (Inl e)
    with s show ?thesis by simp
  next
    case (Inr v)
    with s have "\<exists>inst d sg1.
        op_builds b g = Some inst
      \<and> resolve_build_step (inst_class inst) (inst_attrs inst) (signals b) = (Inr v, d, sg1)
      \<and> signals b' = sg1 \<and> op_builds b' = (op_builds b)(g \<mapsto> inst\<lparr>inst_attrs := d\<rparr>)"
      by (auto simp: build_ops_def enter_scope_def call_build_step_def
               split: sum.splits option.splits prod.splits)
    then obtain inst d sg1 where
      i: "op_builds b g = Some inst"
      and st: "resolve_build_step (inst_class inst) (inst_attrs inst) (signals b) = (Inr v, d, sg1)"
      and b': "signals b' = sg1" "op_builds b' = (op_builds b)(g \<mapsto> inst\<lparr>inst_attrs := d\<rparr>)"
      by blast
    from Cons.prems i st b' have "step_run gs (op_builds b') (signals b') = None"
      by (auto split: option.splits)
    from Cons.IH[OF this, of "collect v acc" "map_option Suc p"] s Inr show ?thesis by auto
  qed
qed

section \<open>The base class\<close>

text \<open>
  C8. The base \<^verbatim>\<open>OpBuilder.mergeable(x, y)\<close> returns false for every pair of operators,
  and so also when both arguments are the same operator.
\<close>

theorem mergeable_base_false:
  "OpBuilder_mergeable x y = False \<and> OpBuilder_mergeable x x = False"
  by (simp add: OpBuilder_mergeable_def)

text \<open>
  C7. An instance of a subclass of \<^verbatim>\<open>OpBuilder\<close> that does not define
  \<^verbatim>\<open>build_step\<close> gets the base method: calling it raises a \<^verbatim>\<open>BuildError\<close>, and
  neither the instance nor the signals are changed.
\<close>

theorem build_step_not_overridden:
  assumes "bc_is_opbuilder (inst_class inst)"
    and "bc_build_step (inst_class inst) = None"
  shows "call_build_step inst sg =
           (Inl (BuildError ''OpBuilders must implement a `build_step` function''), inst, sg)
         \<and> (\<exists>e. fst (call_build_step inst sg) = Inl e \<and> is_BuildError e)"
  using assms
  by (simp add: call_build_step_def resolve_build_step_def OpBuilder_build_step_def)

theorem build_step_not_overridden_witness:
  "call_build_step
     \<lparr>inst_class = \<lparr>bc_name = ''ResetBuilder'', bc_is_opbuilder = True,
                    bc_init = None, bc_build_step = None\<rparr>,
      inst_attrs = Map.empty\<rparr> Map.empty
   = (Inl (BuildError ''OpBuilders must implement a `build_step` function''),
      \<lparr>inst_class = \<lparr>bc_name = ''ResetBuilder'', bc_is_opbuilder = True,
                    bc_init = None, bc_build_step = None\<rparr>,
       inst_attrs = Map.empty\<rparr>, Map.empty)"
  using build_step_not_overridden
    [of "\<lparr>inst_class = \<lparr>bc_name = ''ResetBuilder'', bc_is_opbuilder = True,
                         bc_init = None, bc_build_step = None\<rparr>,
           inst_attrs = Map.empty\<rparr>" Map.empty]
  by simp

text \<open>
  C10. Constructing the base \<^verbatim>\<open>OpBuilder(ops, signals, config)\<close> returns an instance
  whose only attribute is \<^verbatim>\<open>config\<close>, holding the given configuration, and hands the
  signal dictionary back as it was.
\<close>

theorem OpBuilder_init_frame:
  "instantiate OpBuilder_class ops sg cfg =
     (Inr \<lparr>inst_class = OpBuilder_class,
           inst_attrs = Map.empty(''config'' \<mapsto> AConfig cfg)\<rparr>, sg)
   \<and> OpBuilder_init ops sg cfg = (Inr (Map.empty(''config'' \<mapsto> AConfig cfg)), sg)
   \<and> dom (Map.empty(''config'' \<mapsto> AConfig cfg)) = {''config''}"
  by (simp add: instantiate_def resolve_init_def OpBuilder_class_def OpBuilder_init_def)

section \<open>NengoModel.add\_op\<close>

text \<open>
  C5. Take an operator whose \<^verbatim>\<open>init_signals\<close> returns on the new dictionary and whose
  \<^verbatim>\<open>make_step\<close> then raises \<open>e\<close>. On a model with \<^verbatim>\<open>fail_fast\<close> set, \<^verbatim>\<open>add_op\<close>
  raises \<open>e\<close>. On a model with \<^verbatim>\<open>fail_fast\<close> clear, \<^verbatim>\<open>add_op\<close> returns, having only
  appended the operator: no operator method is called.
\<close>

theorem add_op_fail_fast:
  assumes "op_init_signals x Map.empty = (Inr u, sd)"
    and "op_make_step x sd (dt m) = Inl e"
  shows "(fail_fast m \<longrightarrow> fst (add_op x m) = Inl e)
       \<and> (\<not> fail_fast m \<longrightarrow>
            add_op x m = (Inr (), m\<lparr>operators := operators m @ [x]\<rparr>)
          \<and> op_calls (snd (add_op x m)) = op_calls m)"
  using assms by (simp add: add_op_def Let_def)

theorem add_op_fail_fast_witness:
  "fst (add_op \<lparr>op_id = 7, op_type = ''nengo.builder.operator.Reset'',
               op_init_signals = (\<lambda>sd. (Inr (), sd(0 \<mapsto> 0))),
               op_make_step = (\<lambda>sd t. Inl (OtherError ''NotImplementedError''))\<rparr>
         \<lparr>operators = [], dt = 1 / 1000, fail_fast = True, op_calls = []\<rparr>)
     = Inl (OtherError ''NotImplementedError'')
   \<and> fst (add_op \<lparr>op_id = 7, op_type = ''nengo.builder.operator.Reset'',
               op_init_signals = (\<lambda>sd. (Inr (), sd(0 \<mapsto> 0))),
               op_make_step = (\<lambda>sd t. Inl (OtherError ''NotImplementedError''))\<rparr>
         \<lparr>operators = [], dt = 1 / 1000, fail_fast = False, op_calls = []\<rparr>)
     = Inr ()
   \<and> op_calls (snd (add_op \<lparr>op_id = 7, op_type = ''nengo.builder.operator.Reset'',
               op_init_signals = (\<lambda>sd. (Inr (), sd(0 \<mapsto> 0))),
               op_make_step = (\<lambda>sd t. Inl (OtherError ''NotImplementedError''))\<rparr>
         \<lparr>operators = [], dt = 1 / 1000, fail_fast = False, op_calls = []\<rparr>)) = []"
  using add_op_fail_fast
    [of "\<lparr>op_id = 7, op_type = ''nengo.builder.operator.Reset'',
          op_init_signals = (\<lambda>sd. (Inr (), sd(0 \<mapsto> 0))),
          op_make_step = (\<lambda>sd t. Inl (OtherError ''NotImplementedError''))\<rparr>"
        "()" "Map.empty(0 \<mapsto> 0)"
        "\<lparr>operators = [], dt = 1 / 1000, fail_fast = True, op_calls = []\<rparr>"
        "OtherError ''NotImplementedError''"]
    add_op_fail_fast
    [of "\<lparr>op_id = 7, op_type = ''nengo.builder.operator.Reset'',
          op_init_signals = (\<lambda>sd. (Inr (), sd(0 \<mapsto> 0))),
          op_make_step = (\<lambda>sd t. Inl (OtherError ''NotImplementedError''))\<rparr>"
        "()" "Map.empty(0 \<mapsto> 0)"
        "\<lparr>operators = [], dt = 1 / 1000, fail_fast = False, op_calls = []\<rparr>"
        "OtherError ''NotImplementedError''"]
  by simp

text \<open>
  C9. \<^verbatim>\<open>add_op\<close> appends the operator before it checks anything: on a model with
  \<^verbatim>\<open>fail_fast\<close> set and an operator whose \<^verbatim>\<open>make_step\<close> raises \<open>e\<close>, \<^verbatim>\<open>add_op\<close> raises
  \<open>e\<close> and leaves the operator at the end of the model's operator list.
\<close>

theorem add_op_no_rollback:
  assumes "fail_fast m"
    and "op_init_signals x Map.empty = (Inr u, sd)"
    and "op_make_step x sd (dt m) = Inl e"
  shows "fst (add_op x m) = Inl e \<and> operators (snd (add_op x m)) = operators m @ [x]"
  using assms by (simp add: add_op_def Let_def)

theorem add_op_no_rollback_witness:
  "fst (add_op \<lparr>op_id = 3, op_type = ''nengo.builder.operator.Copy'',
               op_init_signals = (\<lambda>sd. (Inr (), sd)),
               op_make_step = (\<lambda>sd t. Inl (TypeError ''bad step''))\<rparr>
         \<lparr>operators = [], dt = 1 / 1000, fail_fast = True, op_calls = []\<rparr>)
     = Inl (TypeError ''bad step'')
   \<and> map op_id (operators (snd (add_op
         \<lparr>op_id = 3, op_type = ''nengo.builder.operator.Copy'',
          op_init_signals = (\<lambda>sd. (Inr (), sd)),
          op_make_step = (\<lambda>sd t. Inl (TypeError ''bad step''))\<rparr>
         \<lparr>operators = [], dt = 1 / 1000, fail_fast = True, op_calls = []\<rparr>))) = [3]"
  using add_op_no_rollback
    [of "\<lparr>operators = [], dt = 1 / 1000, fail_fast = True, op_calls = []\<rparr>"
        "\<lparr>op_id = 3, op_type = ''nengo.builder.operator.Copy'',
          op_init_signals = (\<lambda>sd. (Inr (), sd)),
          op_make_step = (\<lambda>sd t. Inl (TypeError ''bad step''))\<rparr>"
        "()" Map.empty "TypeError ''bad step''"]
  by simp

section \<open>NengoBuilder.build\<close>

text \<open>
  C6. \<^verbatim>\<open>NengoBuilder.build\<close> first dispatches through the registry of
  \<^verbatim>\<open>NengoBuilder\<close>. When that attempt returns, its value is returned. When it raises a
  \<^verbatim>\<open>BuildError\<close>, for whatever reason, the outcome is that of the dispatch through the
  registry of Nengo's own builder, run on the model as the first attempt left it; the
  first error is not seen by the caller.
\<close>

theorem NengoBuilder_build_fallback:
  "(Builder_build NengoBuilder_cls model obj args = (Inr v, model') \<longrightarrow>
      NengoBuilder_build Builder_build model obj args = (Inr v, model'))
   \<and> (Builder_build NengoBuilder_cls model obj args = (Inl e, model') \<and> is_BuildError e \<longrightarrow>
      NengoBuilder_build Builder_build model obj args =
        Builder_build Nengo_Builder_cls model' obj args)"
  by (simp add: NengoBuilder_build_def)

theorem NengoBuilder_build_fallback_witness:
  "NengoBuilder_build
     (\<lambda>cls (m :: string list) (obj :: string) (args :: unit).
        case cls of
          NengoBuilder_cls \<Rightarrow>
            (Inl (BuildError ''Cannot build object of type Ensemble''), m)
        | Nengo_Builder_cls \<Rightarrow> (Inr (length m), m @ [obj]))
     [] ''Ensemble'' ()
   = (Inr 0, [''Ensemble''])"
  using NengoBuilder_build_fallback
    [of "(\<lambda>cls (m :: string list) (obj :: string) (args :: unit).
        case cls of
          NengoBuilder_cls \<Rightarrow>
            (Inl (BuildError ''Cannot build object of type Ensemble''), m)
        | Nengo_Builder_cls \<Rightarrow> (Inr (length m), m @ [obj]))"
        "[]" "''Ensemble''" "()" 0 "[]" "BuildError ''Cannot build object of type Ensemble''"]
  by simp

section \<open>Builder.register\<close>

text \<open>
  C4. Registering \<open>B1\<close> and then \<open>B2\<close> for the same operator type \<open>T\<close>: the second
  registration returns \<open>B2\<close>, it adds the overwriting warning as the last warning (after
  the one about the base class, if \<open>B2\<close> does not inherit from \<^verbatim>\<open>OpBuilder\<close>), and the
  registry then maps \<open>T\<close> to \<open>B2\<close>. A later \<^verbatim>\<open>pre_build\<close> that reaches a group of type \<open>T\<close>
  calls the constructor of \<open>B2\<close> for it.
\<close>

theorem register_twice:
  "fst (register T B2 (snd (register T B1 g))) = Inr B2
   \<and> builders (snd (register T B2 (snd (register T B1 g)))) T = Some B2
   \<and> warnings (snd (register T B2 (snd (register T B1 g)))) =
       warnings (snd (register T B1 g))
       @ (if bc_is_opbuilder B2 then [] else [''Build classes should inherit from OpBuilder''])
       @ [''Operator '' @ [CHR 0x27] @ repr_type T @ [CHR 0x27] @
          '' already has a builder. Overwriting.'']
   \<and> (plan b = pre @ ops # post \<and> type_of_first ops = Inr T
        \<and> pre_build_loop sn (builders (snd (register T B2 (snd (register T B1 g))))) pre b
             progress = (Inr (), b1, p1) \<longrightarrow>
        (\<exists>rest. call_log (fst (snd (pre_build sn
             (builders (snd (register T B2 (snd (register T B1 g))))) b progress)))
           = call_log b1 @ Construct ops B2 # rest))"
proof -
  let ?reg = "builders (snd (register T B2 (snd (register T B1 g))))"
  have regT: "?reg T = Some B2" by (simp add: register_builder_simps)
  have "\<exists>rest. call_log (fst (snd (pre_build sn ?reg b progress)))
           = call_log b1 @ Construct ops B2 # rest"
    if pl: "plan b = pre @ ops # post" and ty: "type_of_first ops = Inr T"
      and re: "pre_build_loop sn ?reg pre b progress = (Inr (), b1, p1)"
  proof -
    obtain r b2 where s: "pre_build_ops sn ?reg ops b1 = (r, b2)"
      by (cases "pre_build_ops sn ?reg ops b1")
    from pre_build_ops_registered(1)[where reg = ?reg and t = T, OF ty regT, of sn b1] s
    have l2: "call_log b2 = call_log b1 @ [Construct ops B2]" by simp
    have e: "pre_build sn ?reg b progress = pre_build_loop sn ?reg (ops # post) b1 p1"
      by (simp add: pre_build_def pl pre_build_loop_append re)
    show ?thesis
    proof (cases r)
      case (Inl e')
      with s e l2 show ?thesis by simp
    next
      case (Inr u)
      from pre_build_loop_log_prefix[of sn ?reg post b2 "map_option Suc p1"] obtain r2 where
        "call_log (fst (snd (pre_build_loop sn ?reg post b2 (map_option Suc p1)))) = call_log b2 @ r2"
        by blast
      with s e l2 Inr show ?thesis by simp
    qed
  qed
  then show ?thesis
    by (simp add: register_builder_simps)
qed

theorem register_twice_witness:
  "builders (snd (register ''Reset'' (ex_class ''ResetBuilder2'' PNone)
       (snd (register ''Reset'' (ex_class ''ResetBuilder'' (PTensor 1)) initial_registry))))
     ''Reset'' = Some (ex_class ''ResetBuilder2'' PNone)
   \<and> warnings (snd (register ''Reset'' (ex_class ''ResetBuilder2'' PNone)
       (snd (register ''Reset'' (ex_class ''ResetBuilder'' (PTensor 1)) initial_registry))))
     = [''Operator '' @ [CHR 0x27] @ ''<class '' @ [CHR 0x27] @ ''Reset'' @ [CHR 0x27] @
        ''>'' @ [CHR 0x27] @ '' already has a builder. Overwriting.'']
   \<and> call_log (fst (snd (pre_build (\<lambda>s. s)
       (builders (snd (register ''Reset'' (ex_class ''ResetBuilder2'' PNone)
         (snd (register ''Reset'' (ex_class ''ResetBuilder'' (PTensor 1)) initial_registry)))))
       (Builder_init [[ex_op 1 ''Reset'']] [] Map.empty ex_config) None)))
     = [Construct [ex_op 1 ''Reset''] (ex_class ''ResetBuilder2'' PNone)]"
  using register_twice
    [where T = "''Reset''" and ?B2.0 = "ex_class ''ResetBuilder2'' PNone"
       and ?B1.0 = "ex_class ''ResetBuilder'' (PTensor 1)"
       and g = initial_registry
       and b = "Builder_init [[ex_op 1 ''Reset'']] [] Map.empty ex_config"
       and pre = "[]" and ops = "[ex_op 1 ''Reset'']" and post = "[]"
       and sn = "\<lambda>s. s" and progress = None
       and ?b1.0 = "Builder_init [[ex_op 1 ''Reset'']] [] Map.empty ex_config"
       and ?p1.0 = None]
  by (simp add: pre_build_def pre_build_ops_def name_scope_def enter_scope_def
        type_of_first_def instantiate_def resolve_init_def OpBuilder_init_def register_def
        register_builder_def warn_def Let_def Builder_init_def initial_registry_def
        repr_type_def ex_op_def ex_class_def)

section \<open>Builder.pre\_build and Builder.build\<close>

text \<open>
  C1. Let the plan be \<open>pre @ ops # post\<close>, let the loop of \<^verbatim>\<open>pre_build\<close> have gone
  through \<open>pre\<close> without raising, leaving the builder \<open>b1\<close>, and let the type \<open>t\<close> of the
  first operator of \<open>ops\<close> have no entry in the registry. Then \<^verbatim>\<open>pre_build\<close> raises a
  \<^verbatim>\<open>BuildError\<close> whose message ends with the \<^verbatim>\<open>repr\<close> of \<open>t\<close>, the builder is left
  as \<open>b1\<close>, and \<^verbatim>\<open>op_builds\<close> holds under the key \<open>ops\<close> what it held before the call:
  nothing, when the builder was new.
\<close>

theorem pre_build_unregistered:
  assumes "plan b = pre @ ops # post"
    and "pre_build_loop sn reg pre b progress = (Inr (), b1, p1)"
    and "type_of_first ops = Inr t"
    and "reg t = None"
  shows "pre_build sn reg b progress =
           (Inl (BuildError (''No registered builder for operators of type <class '' @
                             [CHR 0x27] @ t @ [CHR 0x27] @ ''>'')), b1, p1)
       \<and> op_builds b1 ops = op_builds b ops
       \<and> (op_builds b = Map.empty \<longrightarrow> op_builds b1 ops = None)"
proof -
  have fail: "pre_build_ops sn reg ops b1 =
      (Inl (BuildError (''No registered builder for operators of type '' @ repr_type t)), b1)"
    using assms(3,4) by (rule pre_build_ops_unregistered)
  have "pre_build sn reg b progress = pre_build_loop sn reg (pre @ ops # post) b progress"
    by (simp add: pre_build_def assms(1))
  also have "\<dots> = pre_build_loop sn reg (ops # post) b1 p1"
    by (simp add: pre_build_loop_append assms(2))
  also have "\<dots> = (Inl (BuildError (''No registered builder for operators of type '' @
                             repr_type t)), b1, p1)"
    by (simp add: fail)
  finally have res: "pre_build sn reg b progress =
      (Inl (BuildError (''No registered builder for operators of type '' @ repr_type t)), b1, p1)" .
  from pre_build_loop_Inr_frame[OF assms(2)] assms(3,4) have "ops \<notin> set pre"
    by auto
  with pre_build_loop_Inr_frame[OF assms(2)] have same: "op_builds b1 ops = op_builds b ops"
    by blast
  from res same show ?thesis by (simp add: repr_type_def)
qed

theorem pre_build_unregistered_witness:
  "fst (pre_build (\<lambda>s. s) (Map.empty(''Reset'' \<mapsto> ex_class ''ResetBuilder'' (PTensor 1)))
          (Builder_init [[ex_op 1 ''Reset'', ex_op 2 ''Reset''], [ex_op 3 ''Copy'']]
             [] Map.empty ex_config) None)
     = Inl (BuildError (''No registered builder for operators of type <class '' @
                        [CHR 0x27] @ ''Copy'' @ [CHR 0x27] @ ''>''))
   \<and> op_builds (fst (snd (pre_build (\<lambda>s. s)
          (Map.empty(''Reset'' \<mapsto> ex_class ''ResetBuilder'' (PTensor 1)))
          (Builder_init [[ex_op 1 ''Reset'', ex_op 2 ''Reset''], [ex_op 3 ''Copy'']]
             [] Map.empty ex_config) None)))
        [ex_op 3 ''Copy''] = None"
proof -
  let ?reg = "Map.empty(''Reset'' \<mapsto> ex_class ''ResetBuilder'' (PTensor 1))"
  let ?b = "Builder_init [[ex_op 1 ''Reset'', ex_op 2 ''Reset''], [ex_op 3 ''Copy'']]
              [] Map.empty ex_config"
  let ?run = "pre_build_loop (\<lambda>s. s) ?reg [[ex_op 1 ''Reset'', ex_op 2 ''Reset'']] ?b None"
  have h1: "plan ?b = [[ex_op 1 ''Reset'', ex_op 2 ''Reset'']] @ [ex_op 3 ''Copy''] # []"
    by (simp add: Builder_init_def)
  have h2: "?run = (Inr (), fst (snd ?run), None)"
    by (simp add: pre_build_ops_def name_scope_def enter_scope_def type_of_first_def
          instantiate_def resolve_init_def OpBuilder_init_def Builder_init_def
          ex_op_def ex_class_def)
  have h3: "type_of_first [ex_op 3 ''Copy''] = Inr ''Copy''"
    by (simp add: type_of_first_def ex_op_def)
  have h4: "?reg ''Copy'' = None" by simp
  have e: "op_builds ?b = Map.empty" by (simp add: Builder_init_def)
  from pre_build_unregistered[where reg = ?reg and t = "''Copy''", OF h1 h2 h3 h4] e
  show ?thesis by simp
qed

text \<open>
  C2. Whenever \<^verbatim>\<open>build\<close> returns, it has called one step for each group of the plan,
  in plan order, and what it returns is the flattened list of what those steps returned:
  each tensor or variable as one element, the elements of each list or tuple in order,
  and nothing for any other output. On a builder that is \<open>ready\<close> (every group has an
  instantiated builder whose step returns) \<^verbatim>\<open>build\<close> does return.
\<close>

theorem build_side_effects:
  "(build sn reg b p = (Inr se, b', p') \<longrightarrow>
      (\<exists>outs. length outs = length (plan b)
         \<and> call_log b' = call_log b @ map2 (\<lambda>g v. BuildStep g (Inr v)) (plan b) outs
         \<and> se = flattened outs))
   \<and> (ready reg b \<longrightarrow>
      (\<exists>outs b''. build sn reg b p =
           (Inr (flattened outs), b'', map_option (\<lambda>n. n + length (plan b)) p)
         \<and> length outs = length (plan b)
         \<and> call_log b'' = call_log b @ map2 (\<lambda>g v. BuildStep g (Inr v)) (plan b) outs))"
proof (intro conjI impI)
  assume "build sn reg b p = (Inr se, b', p')"
  then have "build_loop sn reg (plan b) b [] p = (Inr se, b', p')"
    by (simp add: build_def)
  from build_loop_Inr[OF this]
  show "\<exists>outs. length outs = length (plan b)
         \<and> call_log b' = call_log b @ map2 (\<lambda>g v. BuildStep g (Inr v)) (plan b) outs
         \<and> se = flattened outs"
    by auto
next
  assume "ready reg b"
  from build_ready[OF this, of sn p]
  show "\<exists>outs b''. build sn reg b p =
           (Inr (flattened outs), b'', map_option (\<lambda>n. n + length (plan b)) p)
         \<and> length outs = length (plan b)
         \<and> call_log b'' = call_log b @ map2 (\<lambda>g v. BuildStep g (Inr v)) (plan b) outs"
    by blast
qed

theorem build_side_effects_witness:
  "fst (build (\<lambda>s. s)
         (Map.empty(''Reset'' \<mapsto> ex_class ''ResetBuilder'' (PTensor 1),
                    ''Copy'' \<mapsto> ex_class ''CopyBuilder'' (PList [PTensor 2, PVariable 3]),
                    ''TimeUpdate'' \<mapsto> ex_class ''TimeUpdateBuilder'' PNone))
         \<lparr>plan = [[ex_op 1 ''Reset'', ex_op 2 ''Reset''], [ex_op 3 ''Copy''],
                  [ex_op 4 ''TimeUpdate'']],
          graph = [], signals = Map.empty, config = ex_config,
          op_builds = Map.empty(
            [ex_op 1 ''Reset'', ex_op 2 ''Reset''] \<mapsto>
              \<lparr>inst_class = ex_class ''ResetBuilder'' (PTensor 1), inst_attrs = Map.empty\<rparr>,
            [ex_op 3 ''Copy''] \<mapsto>
              \<lparr>inst_class = ex_class ''CopyBuilder'' (PList [PTensor 2, PVariable 3]),
               inst_attrs = Map.empty\<rparr>,
            [ex_op 4 ''TimeUpdate''] \<mapsto>
              \<lparr>inst_class = ex_class ''TimeUpdateBuilder'' PNone, inst_attrs = Map.empty\<rparr>),
          call_log = []\<rparr> None)
     = Inr [PTensor 1, PTensor 2, PVariable 3]"
proof -
  let ?reg = "Map.empty(''Reset'' \<mapsto> ex_class ''ResetBuilder'' (PTensor 1),
                    ''Copy'' \<mapsto> ex_class ''CopyBuilder'' (PList [PTensor 2, PVariable 3]),
                    ''TimeUpdate'' \<mapsto> ex_class ''TimeUpdateBuilder'' PNone)"
  let ?b = "\<lparr>plan = [[ex_op 1 ''Reset'', ex_op 2 ''Reset''], [ex_op 3 ''Copy''],
                  [ex_op 4 ''TimeUpdate'']],
          graph = [], signals = Map.empty, config = ex_config,
          op_builds = Map.empty(
            [ex_op 1 ''Reset'', ex_op 2 ''Reset''] \<mapsto>
              \<lparr>inst_class = ex_class ''ResetBuilder'' (PTensor 1), inst_attrs = Map.empty\<rparr>,
            [ex_op 3 ''Copy''] \<mapsto>
              \<lparr>inst_class = ex_class ''CopyBuilder'' (PList [PTensor 2, PVariable 3]),
               inst_attrs = Map.empty\<rparr>,
            [ex_op 4 ''TimeUpdate''] \<mapsto>
              \<lparr>inst_class = ex_class ''TimeUpdateBuilder'' PNone, inst_attrs = Map.empty\<rparr>),
          call_log = []\<rparr>"
  have r: "ready ?reg ?b"
    by (simp add: ready_def step_returns_def resolve_build_step_def type_of_first_def
          ex_op_def ex_class_def)
  note t = build_side_effects[where reg = ?reg and b = ?b and sn = "\<lambda>s. s" and p = None,
               THEN conjunct2, THEN mp, OF r]
  have "fst (build (\<lambda>s. s) ?reg ?b None) = Inr [PTensor 1, PTensor 2, PVariable 3]"
    by (simp add: build_def build_ops_def name_scope_def enter_scope_def type_of_first_def
          call_build_step_def resolve_build_step_def collect_def ex_op_def ex_class_def)
  with t show ?thesis by simp
qed

text \<open>
  C3. Let the registry be the result of the registrations \<open>regs\<close>, made from the empty
  registry, and let the type of every group of the plan occur exactly once in \<open>regs\<close>.
  One call of \<^verbatim>\<open>pre_build\<close> does exactly what \<open>construct_run\<close> describes: it returns
  if and only if every constructor, run in plan order on the signals its predecessor
  left, returns. It has then called one constructor per entry of the plan and no step,
  the signals are those the last constructor left, and \<^verbatim>\<open>op_builds\<close> has gained
  exactly the groups of the plan as keys, each holding the instance built for it (the
  last one, for a group that occurs twice), of the class registered for its type.
  After that, every call of \<^verbatim>\<open>build\<close>, whatever the number of calls before it, does
  exactly what \<open>step_run\<close> describes: it returns if and only if every step, run in plan
  order on the stored builders and on the signals its predecessor left, returns. It has
  then called one step per entry of the plan and no constructor, it returns the
  flattened outputs of those steps, and it leaves the builders and signals that the
  steps left.
\<close>

theorem pre_build_then_build:
  assumes reg: "reg = builders (register_all regs initial_registry)"
    and once: "\<forall>ops\<in>set (plan b). \<exists>t. type_of_first ops = Inr t \<and> count_list (map fst regs) t = 1"
  shows "(case construct_run (map_of regs) (config b) (plan b) (signals b) of
            None \<Rightarrow> (\<exists>e b' p'. pre_build sn reg b p = (Inl e, b', p'))
          | Some (insts, sg') \<Rightarrow>
              (\<exists>b'. pre_build sn reg b p = (Inr (), b', map_option (\<lambda>n. n + length (plan b)) p)
                 \<and> length insts = length (plan b)
                 \<and> signals b' = sg'
                 \<and> op_builds b' = op_builds b ++ map_of (rev (zip (plan b) insts))
                 \<and> dom (op_builds b') = dom (op_builds b) \<union> set (plan b)
                 \<and> (\<forall>ops\<in>set (plan b). \<exists>inst t. op_builds b' ops = Some inst
                       \<and> type_of_first ops = Inr t \<and> (t, inst_class inst) \<in> set regs)
                 \<and> constructed_groups (call_log b') = constructed_groups (call_log b) @ plan b
                 \<and> stepped_groups (call_log b') = stepped_groups (call_log b)))
       \<and> (pre_build sn reg b p = (Inr (), b1, p1) \<longrightarrow>
            (\<forall>n. case step_run (plan b) (op_builds (build_times n sn reg b1))
                          (signals (build_times n sn reg b1)) of
                   None \<Rightarrow> (\<exists>e b2 q2. build sn reg (build_times n sn reg b1) q = (Inl e, b2, q2))
                 | Some (outs, obs', sg') \<Rightarrow>
                     (\<exists>b2. build sn reg (build_times n sn reg b1) q =
                             (Inr (flattened outs), b2, map_option (\<lambda>k. k + length (plan b)) q)
                        \<and> length outs = length (plan b)
                        \<and> signals b2 = sg' \<and> op_builds b2 = obs' \<and> plan b2 = plan b
                        \<and> stepped_groups (call_log b2) =
                            stepped_groups (call_log (build_times n sn reg b1)) @ plan b
                        \<and> constructed_groups (call_log b2) =
                            constructed_groups (call_log (build_times n sn reg b1)))))"
proof (rule conjI)
  have agree: "\<forall>g\<in>set (plan b). \<forall>t. type_of_first g = Inr t \<longrightarrow> map_of regs t = reg t"
    using once reg by (auto simp: register_all_map_of)
  have run: "construct_run (map_of regs) (config b) (plan b) (signals b) =
             construct_run reg (config b) (plan b) (signals b)"
    by (rule construct_run_cong[OF agree])
  show "case construct_run (map_of regs) (config b) (plan b) (signals b) of
            None \<Rightarrow> (\<exists>e b' p'. pre_build sn reg b p = (Inl e, b', p'))
          | Some (insts, sg') \<Rightarrow>
              (\<exists>b'. pre_build sn reg b p = (Inr (), b', map_option (\<lambda>n. n + length (plan b)) p)
                 \<and> length insts = length (plan b)
                 \<and> signals b' = sg'
                 \<and> op_builds b' = op_builds b ++ map_of (rev (zip (plan b) insts))
                 \<and> dom (op_builds b') = dom (op_builds b) \<union> set (plan b)
                 \<and> (\<forall>ops\<in>set (plan b). \<exists>inst t. op_builds b' ops = Some inst
                       \<and> type_of_first ops = Inr t \<and> (t, inst_class inst) \<in> set regs)
                 \<and> constructed_groups (call_log b') = constructed_groups (call_log b) @ plan b
                 \<and> stepped_groups (call_log b') = stepped_groups (call_log b))"
  proof (cases "construct_run (map_of regs) (config b) (plan b) (signals b)")
    case None
    with run have "construct_run reg (config b) (plan b) (signals b) = None" by simp
    from pre_build_loop_run_None[OF this, of sn p] None show ?thesis
      by (simp add: pre_build_def)
  next
    case (Some res)
    obtain insts sg' where res: "res = (insts, sg')" by (cases res)
    with Some run have cr: "construct_run reg (config b) (plan b) (signals b) = Some (insts, sg')"
      by simp
    from pre_build_loop_run_Some[OF cr, of sn p] obtain b' where
      l: "pre_build_loop sn reg (plan b) b p =
            (Inr (), b', map_option (\<lambda>n. n + length (plan b)) p)"
      and len: "length insts = length (plan b)"
      and sg: "signals b' = sg'"
      and ob: "op_builds b' = op_builds b ++ map_of (rev (zip (plan b) insts))"
      and cl: "call_log b' = call_log b @ map2 Construct (plan b) (map inst_class insts)"
      by blast
    have keys: "fst ` set (rev (zip (plan b) insts)) = set (plan b)"
      using len by (simp add: image_comp[symmetric] flip: set_map)
    have d: "dom (op_builds b') = dom (op_builds b) \<union> set (plan b)"
      using ob keys by (auto simp: dom_map_of_conv_image_fst)
    from Some res have crm: "construct_run (map_of regs) (config b) (plan b) (signals b) = Some (insts, sg')"
      by simp
    note la = construct_run_classes[OF crm]
    have cls: "\<forall>ops\<in>set (plan b). \<exists>inst t. op_builds b' ops = Some inst
                       \<and> type_of_first ops = Inr t \<and> (t, inst_class inst) \<in> set regs"
    proof
      fix ops assume m: "ops \<in> set (plan b)"
      with keys have "ops \<in> dom (map_of (rev (zip (plan b) insts)))"
        by (simp add: dom_map_of_conv_image_fst)
      then obtain inst where mi: "map_of (rev (zip (plan b) insts)) ops = Some inst" by blast
      then have "(ops, inst) \<in> set (zip (plan b) insts)"
        using map_of_SomeD by fastforce
      with la obtain t where "type_of_first ops = Inr t" "map_of regs t = Some (inst_class inst)"
        by (auto simp: list_all2_iff)
      moreover from this(2) have "(t, inst_class inst) \<in> set regs" by (rule map_of_SomeD)
      moreover from mi ob have "op_builds b' ops = Some inst" by (simp add: map_add_Some_iff)
      ultimately show "\<exists>inst t. op_builds b' ops = Some inst
                       \<and> type_of_first ops = Inr t \<and> (t, inst_class inst) \<in> set regs"
        by blast
    qed
    have len': "length (map inst_class insts) = length (plan b)" using len by simp
    have cg: "constructed_groups (call_log b') = constructed_groups (call_log b) @ plan b"
      and sgp: "stepped_groups (call_log b') = stepped_groups (call_log b)"
      using cl groups_of_constructs[OF len'] by simp_all
    from l len sg ob d cls cg sgp Some res show ?thesis
      by (simp add: pre_build_def)
  qed
next
  show "pre_build sn reg b p = (Inr (), b1, p1) \<longrightarrow>
            (\<forall>n. case step_run (plan b) (op_builds (build_times n sn reg b1))
                          (signals (build_times n sn reg b1)) of
                   None \<Rightarrow> (\<exists>e b2 q2. build sn reg (build_times n sn reg b1) q = (Inl e, b2, q2))
                 | Some (outs, obs', sg') \<Rightarrow>
                     (\<exists>b2. build sn reg (build_times n sn reg b1) q =
                             (Inr (flattened outs), b2, map_option (\<lambda>k. k + length (plan b)) q)
                        \<and> length outs = length (plan b)
                        \<and> signals b2 = sg' \<and> op_builds b2 = obs' \<and> plan b2 = plan b
                        \<and> stepped_groups (call_log b2) =
                            stepped_groups (call_log (build_times n sn reg b1)) @ plan b
                        \<and> constructed_groups (call_log b2) =
                            constructed_groups (call_log (build_times n sn reg b1))))"
  proof (intro impI allI)
    fix n
    assume pb: "pre_build sn reg b p = (Inr (), b1, p1)"
    let ?bn = "build_times n sn reg b1"
    from pb have l: "pre_build_loop sn reg (plan b) b p = (Inr (), b1, p1)"
      by (simp add: pre_build_def)
    from pre_build_loop_plan[of sn reg "plan b" b p] l have p1: "plan b1 = plan b" by simp
    then have pn: "plan ?bn = plan b" by (simp add: build_times_plan)
    from pre_build_loop_Inr_frame[OF l] have
      regd: "\<forall>g\<in>set (plan b). \<exists>t cls. type_of_first g = Inr t \<and> reg t = Some cls" by blast
    show "case step_run (plan b) (op_builds ?bn) (signals ?bn) of
            None \<Rightarrow> (\<exists>e b2 q2. build sn reg ?bn q = (Inl e, b2, q2))
          | Some (outs, obs', sg') \<Rightarrow>
              (\<exists>b2. build sn reg ?bn q =
                      (Inr (flattened outs), b2, map_option (\<lambda>k. k + length (plan b)) q)
                 \<and> length outs = length (plan b)
                 \<and> signals b2 = sg' \<and> op_builds b2 = obs' \<and> plan b2 = plan b
                 \<and> stepped_groups (call_log b2) = stepped_groups (call_log ?bn) @ plan b
                 \<and> constructed_groups (call_log b2) = constructed_groups (call_log ?bn))"
    proof (cases "step_run (plan b) (op_builds ?bn) (signals ?bn)")
      case None
      from build_loop_run_None[OF None, of sn reg "[]" q] None pn show ?thesis
        by (simp add: build_def)
    next
      case (Some res)
      obtain outs obs' sg' where res: "res = (outs, obs', sg')" by (cases res)
      from Some res have sr: "step_run (plan b) (op_builds ?bn) (signals ?bn) = Some (outs, obs', sg')"
        by simp
      from build_loop_run_Some[OF sr regd, of sn "[]" q] obtain b2 where
        e: "build_loop sn reg (plan b) ?bn [] q =
              (Inr (flattened outs), b2, map_option (\<lambda>k. k + length (plan b)) q)"
        and len: "length outs = length (plan b)"
        and sg: "signals b2 = sg'" and ob: "op_builds b2 = obs'"
        and cl: "call_log b2 = call_log ?bn @ map2 (\<lambda>g v. BuildStep g (Inr v)) (plan b) outs"
        by auto
      from build_loop_plan[of sn reg "plan b" ?bn "[]" q] e pn have p2: "plan b2 = plan b" by simp
      from cl groups_of_steps[OF len] have
        "stepped_groups (call_log b2) = stepped_groups (call_log ?bn) @ plan b"
        "constructed_groups (call_log b2) = constructed_groups (call_log ?bn)"
        by simp_all
      with e len sg ob p2 Some res pn show ?thesis
        by (simp add: build_def)
    qed
  qed
qed

theorem pre_build_then_build_witness:
  "fst (pre_build (\<lambda>s. s) (builders (register_all ex_regs initial_registry))
          (Builder_init ex_plan [] Map.empty ex_config) None) = Inr ()
   \<and> signals (fst (snd (pre_build (\<lambda>s. s) (builders (register_all ex_regs initial_registry))
          (Builder_init ex_plan [] Map.empty ex_config) None))) 0 = Some (PTensor 10)
   \<and> map_option (\<lambda>i. inst_attrs i ''state'')
        (op_builds (fst (snd (pre_build (\<lambda>s. s)
            (builders (register_all ex_regs initial_registry))
            (Builder_init ex_plan [] Map.empty ex_config) None)))
           [ex_op 1 ''SimNeurons'', ex_op 2 ''SimNeurons''])
       = Some (Some (AValue (PTensor 2)))
   \<and> fst (build (\<lambda>s. s) (builders (register_all ex_regs initial_registry))
          (fst (snd (pre_build (\<lambda>s. s) (builders (register_all ex_regs initial_registry))
             (Builder_init ex_plan [] Map.empty ex_config) None))) None)
       = Inr [PTensor 12, PTensor 1, PVariable 2]
   \<and> stepped_groups (call_log (fst (snd (build (\<lambda>s. s)
          (builders (register_all ex_regs initial_registry))
          (fst (snd (pre_build (\<lambda>s. s) (builders (register_all ex_regs initial_registry))
             (Builder_init ex_plan [] Map.empty ex_config) None))) None))))
       = ex_plan
   \<and> fst (build (\<lambda>s. s) (builders (register_all ex_regs initial_registry))
          (build_times (Suc 0) (\<lambda>s. s) (builders (register_all ex_regs initial_registry))
             (fst (snd (pre_build (\<lambda>s. s) (builders (register_all ex_regs initial_registry))
                (Builder_init ex_plan [] Map.empty ex_config) None)))) None)
       = Inr [PTensor 14, PTensor 1, PVariable 2]"
proof -
  let ?reg = "builders (register_all ex_regs initial_registry)"
  let ?b = "Builder_init ex_plan [] Map.empty ex_config"
  have h: "\<forall>ops\<in>set (plan ?b). \<exists>t. type_of_first ops = Inr t \<and> count_list (map fst ex_regs) t = 1"
    by (simp add: Builder_init_def ex_plan_def ex_regs_def type_of_first_def ex_op_def)
  note t = pre_build_then_build[where regs = ex_regs and b = ?b and sn = "\<lambda>s. s"
             and p = None and q = None and ?b1.0 = "fst (snd (pre_build (\<lambda>s. s) ?reg ?b None))"
             and ?p1.0 = None, OF refl h]
  have c: "fst (pre_build (\<lambda>s. s) ?reg ?b None) = Inr ()
   \<and> signals (fst (snd (pre_build (\<lambda>s. s) ?reg ?b None))) 0 = Some (PTensor 10)
   \<and> map_option (\<lambda>i. inst_attrs i ''state'')
        (op_builds (fst (snd (pre_build (\<lambda>s. s) ?reg ?b None)))
           [ex_op 1 ''SimNeurons'', ex_op 2 ''SimNeurons''])
       = Some (Some (AValue (PTensor 2)))
   \<and> fst (build (\<lambda>s. s) ?reg (fst (snd (pre_build (\<lambda>s. s) ?reg ?b None))) None)
       = Inr [PTensor 12, PTensor 1, PVariable 2]
   \<and> stepped_groups (call_log (fst (snd (build (\<lambda>s. s) ?reg
          (fst (snd (pre_build (\<lambda>s. s) ?reg ?b None))) None))))
       = ex_plan
   \<and> fst (build (\<lambda>s. s) ?reg
          (build_times (Suc 0) (\<lambda>s. s) ?reg (fst (snd (pre_build (\<lambda>s. s) ?reg ?b None)))) None)
       = Inr [PTensor 14, PTensor 1, PVariable 2]"
    by (simp add: pre_build_def pre_build_ops_def build_def build_ops_def name_scope_def
          enter_scope_def type_of_first_def instantiate_def call_build_step_def
          resolve_init_def resolve_build_step_def OpBuilder_init_def collect_def
          register_def register_builder_def warn_def Let_def Builder_init_def
          initial_registry_def stepped_groups_def
          ex_regs_def ex_plan_def ex_op_def ex_class_def ex_stateful_class_def)
  with t show ?thesis by simp
qed

end
